theory Spec2Isabelle
  imports Main
begin

section \<open>Data model\<close>

text \<open>
  The account row of the database schema: \<open>updateMode\<close> is one of the three
  strings "webhook", "polling" and "none"; \<open>webhookUrl\<close> and \<open>webhookSecret\<close>
  are nullable text columns.
\<close>

datatype update_mode = Webhook | Polling | NoMode

record user =
  phoneNumber :: string
  updateMode :: update_mode
  webhookUrl :: "string option"
  webhookSecret :: "string option"

text \<open>The string union \<open>UpdateType\<close> of types/telegram.ts, one constructor per literal.\<close>

datatype update_type =
    T_message | T_edited_message | T_channel_post | T_edited_channel_post
  | T_delete | T_album | T_typing | T_user_update | T_chat_action
  | T_inline_query | T_callback_query | T_reaction | T_story | T_all

record update_options =
  allowed_updates :: "update_type list option"
  exclude_updates :: "update_type list option"

text \<open>
  The provider's message object (\<open>Api.Message\<close>), with the fields the dispatch code
  reads: \<open>id\<close>, \<open>groupedId\<close> (a big integer object or undefined, so that its
  truthiness is its presence), \<open>message\<close> (the text) and \<open>out\<close>. The sender, chat
  and media objects are copied into the converted message without taking part in any
  decision and are left out.
\<close>

record api_message =
  id_raw :: int
  groupedId :: "int option"
  message_raw :: string
  out_raw :: bool

record message =
  message_id :: int
  date :: int
  text_m :: string
  group_id :: "int option"
  out :: bool

text \<open>
  The \<open>Update\<close> envelope: \<open>update_id\<close> and one payload. A message payload is stored
  under the property named by its kind (\<open>[type]: convertToMessage(message)\<close>), an album
  payload under \<open>album\<close>; the remaining payloads are built by the raw event handler.
\<close>

datatype payload =
    MessageP update_type message
  | AlbumP "int option" "message list"
  | OtherP update_type

record update =
  update_id :: int
  payload :: payload

text \<open>
  \<open>UpdateHandler\<close>: the descriptor of a pending long poll. \<open>resolve\<close> is the
  resolution function of the promise that getUpdates returned; it is represented by the
  number of that promise. \<open>timeoutHandle\<close> is the handle of the poll's timer.
\<close>

record update_handler =
  phoneNumber_h :: string
  offset_h :: "int option"
  resolve :: nat
  timeoutHandle :: "nat option"
  options_h :: "update_options option"

text \<open>
  The callbacks handed to \<open>setTimeout\<close> by the code: the long poll's timeout
  (getUpdates), the initial album timer and the timer restarted for a later fragment
  (handleMediaAlbum).
\<close>

datatype timer_callback =
    PollTimeout string nat
  | AlbumInitial int
  | AlbumSubsequent int

record album_entry =
  messages :: "api_message list"
  timer :: nat

text \<open>
  The state: the four maps of the class \<open>UpdateManager\<close>, the module level map
  \<open>pendingAlbums\<close> of utils/telegram.ts, and the part of the runtime the code acts on:
  the pending timers (newest first) and the promises settled so far.
  \<open>processedMessages\<close> is a JavaScript Map, iterated in insertion order, hence an
  association list; its key is the template string \<open>phone:id:type\<close>, which determines
  the triple (the id and the type contain no colon).
\<close>

type_synonym message_key = "string \<times> int \<times> update_type"

record manager =
  updateHandlers :: "string \<rightharpoonup> update_handler"
  updateBuffers :: "string \<rightharpoonup> update list"
  lastUpdateId :: "string \<rightharpoonup> int"
  processedMessages :: "(message_key \<times> int) list"
  pendingAlbums :: "int \<rightharpoonup> album_entry"
  timers :: "(nat \<times> timer_callback) list"
  nextTimer :: nat
  settled :: "nat \<rightharpoonup> update list"
  nextPromise :: nat

definition MESSAGE_CACHE_TTL :: int where
  "MESSAGE_CACHE_TTL = 60 * 1000"

definition MAX_CACHE_SIZE :: nat where
  "MAX_CACHE_SIZE = 1000"

text \<open>The state after the constructor: every map is empty, nothing is scheduled.\<close>

definition initial_manager :: manager where
  "initial_manager =
     \<lparr>updateHandlers = Map.empty, updateBuffers = Map.empty, lastUpdateId = Map.empty,
      processedMessages = [], pendingAlbums = Map.empty, timers = [], nextTimer = 0,
      settled = Map.empty, nextPromise = 0\<rparr>"

section \<open>The runtime: timers and promises\<close>

definition setTimeout :: "manager \<Rightarrow> timer_callback \<Rightarrow> manager \<times> nat" where
  "setTimeout s cb =
     (s\<lparr>timers := (nextTimer s, cb) # timers s, nextTimer := Suc (nextTimer s)\<rparr>,
      nextTimer s)"

definition clearTimeout :: "manager \<Rightarrow> nat \<Rightarrow> manager" where
  "clearTimeout s t = s\<lparr>timers := filter (\<lambda>e. fst e \<noteq> t) (timers s)\<rparr>"

text \<open>\<open>new Promise\<close>: a fresh promise, pending.\<close>

definition newPromise :: "manager \<Rightarrow> manager \<times> nat" where
  "newPromise s =
     (s\<lparr>settled := (settled s)(nextPromise s := None), nextPromise := Suc (nextPromise s)\<rparr>,
      nextPromise s)"

text \<open>Calling a promise's \<open>resolve\<close>: the first call settles it, later calls do nothing.\<close>

definition settle :: "manager \<Rightarrow> nat \<Rightarrow> update list \<Rightarrow> manager" where
  "settle s p us =
     (case settled s p of
        None \<Rightarrow> s\<lparr>settled := (settled s)(p \<mapsto> us)\<rparr>
      | Some _ \<Rightarrow> s)"

section \<open>UpdateManager\<close>

text \<open>
  \<open>generateUpdateId\<close>: \<open>lastUpdateId.get(phone) || Date.now()\<close> takes the clock when
  the entry is missing or is the falsy number 0. \<open>now\<close> is the value \<open>Date.now()\<close>
  has at the call. Identifiers are integers: they start at the clock's milliseconds and
  stay far below \<open>2 ^ 53\<close>, where the addition of JavaScript numbers is exact.
\<close>

definition generateUpdateId :: "manager \<Rightarrow> string \<Rightarrow> int \<Rightarrow> manager \<times> int" where
  "generateUpdateId s phone now =
     (let lastId = (case lastUpdateId s phone of
                      None \<Rightarrow> now
                    | Some l \<Rightarrow> if l = 0 then now else l);
          newId = lastId + 1
      in (s\<lparr>lastUpdateId := (lastUpdateId s)(phone \<mapsto> newId)\<rparr>, newId))"

text \<open>\<open>Array.prototype.findIndex\<close>; the result -1 is \<open>None\<close>.\<close>

fun findIndex :: "('a \<Rightarrow> bool) \<Rightarrow> 'a list \<Rightarrow> nat option" where
  "findIndex P [] = None"
| "findIndex P (x # xs) = (if P x then Some 0 else map_option Suc (findIndex P xs))"

text \<open>
  \<open>getBufferedUpdates\<close>: \<open>!offset\<close> holds for a missing offset and for 0. The
  function returns the updates and leaves the buffer empty, except when no update lies
  beyond the offset: then the buffer is kept.
\<close>

definition getBufferedUpdates ::
    "manager \<Rightarrow> string \<Rightarrow> int option \<Rightarrow> manager \<times> update list" where
  "getBufferedUpdates s phone offset =
     (let buffer = (case updateBuffers s phone of None \<Rightarrow> [] | Some b \<Rightarrow> b);
          drained = s\<lparr>updateBuffers := (updateBuffers s)(phone \<mapsto> [])\<rparr>
      in case offset of
           None \<Rightarrow> (drained, buffer)
         | Some off \<Rightarrow>
             if off = 0 then (drained, buffer)
             else (case findIndex (\<lambda>u. update_id u > off) buffer of
                     None \<Rightarrow> (s, [])
                   | Some index \<Rightarrow> (drained, drop index buffer)))"

text \<open>\<open>shouldIncludeUpdate\<close> of types/telegram.ts; an array is truthy also when empty.\<close>

definition shouldIncludeUpdate :: "update_type \<Rightarrow> update_options option \<Rightarrow> bool" where
  "shouldIncludeUpdate ty options =
     (case options of
        None \<Rightarrow> True
      | Some opts \<Rightarrow>
          if (case exclude_updates opts of None \<Rightarrow> False | Some ex \<Rightarrow> ty \<in> set ex)
          then False
          else (case allowed_updates opts of
                  None \<Rightarrow> True
                | Some al \<Rightarrow> ty \<in> set al \<or> T_all \<in> set al))"

text \<open>
  \<open>clearHandlers\<close>: cancels the timer of the account's handler, deletes the handler and
  sets the account's buffer to the empty array.
\<close>

definition clearHandlers :: "manager \<Rightarrow> string \<Rightarrow> manager" where
  "clearHandlers s phone =
     (let s1 = (case updateHandlers s phone of
                  None \<Rightarrow> s
                | Some existingHandler \<Rightarrow>
                    (case timeoutHandle existingHandler of
                       None \<Rightarrow> s
                     | Some t \<Rightarrow> clearTimeout s t))
      in s1\<lparr>updateHandlers := (updateHandlers s1)(phone := None),
            updateBuffers := (updateBuffers s1)(phone \<mapsto> [])\<rparr>)"


text \<open>
  \<open>bufferUpdate\<close>: appends the update and, when a handler is pending and the buffer
  has something beyond the handler's offset, cancels its timer, deletes it and resolves
  its promise.
\<close>

definition bufferUpdate :: "manager \<Rightarrow> string \<Rightarrow> update \<Rightarrow> manager" where
  "bufferUpdate s phone upd =
     (let buffer = (case updateBuffers s phone of None \<Rightarrow> [] | Some b \<Rightarrow> b);
          s1 = s\<lparr>updateBuffers := (updateBuffers s)(phone \<mapsto> buffer @ [upd])\<rparr>
      in case updateHandlers s1 phone of
           None \<Rightarrow> s1
         | Some handler \<Rightarrow>
             (let (s2, updates) = getBufferedUpdates s1 phone (offset_h handler)
              in if length updates > 0
                 then (let s3 = (case timeoutHandle handler of
                                   None \<Rightarrow> s2
                                 | Some t \<Rightarrow> clearTimeout s2 t);
                           s4 = s3\<lparr>updateHandlers := (updateHandlers s3)(phone := None)\<rparr>
                       in settle s4 (resolve handler) updates)
                 else s2))"

text \<open>\<open>xs.slice(0, limit)\<close>: a negative limit counts from the end.\<close>

definition slice0 :: "'a list \<Rightarrow> int \<Rightarrow> 'a list" where
  "slice0 xs limit =
     (if limit < 0 then take (nat (int (length xs) + limit)) xs else take (nat limit) xs)"

datatype usage_error = PollingWhileWebhook

datatype poll_result = Returned "update list" | Pending nat

text \<open>
  \<open>getUpdates\<close>: the thrown error is \<open>Inl\<close>; \<open>Returned\<close> is a promise that is already
  resolved, \<open>Pending p\<close> the promise \<open>p\<close> that a later event resolves. The state is
  returned on every path, so that a mutation before a throw would show.
\<close>

definition getUpdates ::
    "manager \<Rightarrow> user \<Rightarrow> int option \<Rightarrow> int \<Rightarrow> int \<Rightarrow> update_options option
       \<Rightarrow> manager \<times> (usage_error + poll_result)" where
  "getUpdates s u offset limit timeout options =
     (if updateMode u = Webhook then (s, Inl PollingWhileWebhook)
      else
        (let s1 = clearHandlers s (phoneNumber u);
             (s2, bufferedUpdates) = getBufferedUpdates s1 (phoneNumber u) offset
         in if length bufferedUpdates > 0
            then (s2, Inr (Returned (slice0 bufferedUpdates limit)))
            else if timeout = 0 then (s2, Inr (Returned []))
            else (let (s3, p) = newPromise s2;
                      (s4, h) = setTimeout s3 (PollTimeout (phoneNumber u) p)
                  in (s4\<lparr>updateHandlers := (updateHandlers s4)(phoneNumber u \<mapsto>
                           \<lparr>phoneNumber_h = phoneNumber u, offset_h = offset, resolve = p,
                            timeoutHandle = Some h, options_h = options\<rparr>)\<rparr>,
                      Inr (Pending p)))))"

text \<open>
  The delivery router (\<open>processUpdate\<close>, and the same two branches written out in
  \<open>handleMessageUpdate\<close>): a delivery is what the router hands an update to.
  \<open>user.webhookUrl\<close> is truthy when it is a non-empty string.
\<close>

datatype delivery = ToWebhook update | ToBuffer update

definition processUpdate :: "manager \<Rightarrow> user \<Rightarrow> update \<Rightarrow> manager \<times> delivery list" where
  "processUpdate s u upd =
     (if updateMode u = Webhook \<and> (case webhookUrl u of None \<Rightarrow> False | Some url \<Rightarrow> url \<noteq> [])
      then (s, [ToWebhook upd])
      else (bufferUpdate s (phoneNumber u) upd, [ToBuffer upd]))"

section \<open>The dedup cache\<close>

definition cache_delete :: "message_key \<Rightarrow> (message_key \<times> int) list \<Rightarrow> (message_key \<times> int) list" where
  "cache_delete k c = filter (\<lambda>e. fst e \<noteq> k) c"

text \<open>
  \<open>cleanupProcessedMessages\<close>: the first loop deletes the entries older than the TTL
  (\<open>unexpired\<close> is what it keeps);
  then, if the map is still larger than \<open>MAX_CACHE_SIZE\<close>, the entries are sorted by
  timestamp (the sort is stable), the first \<open>size - MAX_CACHE_SIZE\<close> are taken and
  their keys deleted.
\<close>

definition unexpired :: "int \<Rightarrow> (message_key \<times> int) list \<Rightarrow> (message_key \<times> int) list" where
  "unexpired now c = (let expiredTime = now - MESSAGE_CACHE_TTL in filter (\<lambda>e. \<not> snd e < expiredTime) c)"

definition cleanupProcessedMessages :: "manager \<Rightarrow> int \<Rightarrow> manager" where
  "cleanupProcessedMessages s now =
     (let kept = unexpired now (processedMessages s)
      in if length kept > MAX_CACHE_SIZE
         then (let entries = take (length kept - MAX_CACHE_SIZE) (sort_key snd kept)
               in s\<lparr>processedMessages := fold (\<lambda>e c. cache_delete (fst e) c) entries kept\<rparr>)
         else s\<lparr>processedMessages := kept\<rparr>)"

section \<open>The album assembler (utils/telegram.ts)\<close>

text \<open>
  \<open>handleMediaAlbum\<close>: returns the messages to process now. The comparator
  \<open>a.id - b.id\<close> sorts by id ascending, and the sort is stable.
\<close>

definition handleMediaAlbum :: "manager \<Rightarrow> api_message \<Rightarrow> manager \<times> api_message list" where
  "handleMediaAlbum s m =
     (case groupedId m of
        None \<Rightarrow> (s, [m])
      | Some groupId \<Rightarrow>
          (case pendingAlbums s groupId of
             Some existingAlbum \<Rightarrow>
               (let s1 = clearTimeout s (timer existingAlbum);
                    msgs = sort_key id_raw (messages existingAlbum @ [m]);
                    (s2, t) = setTimeout s1 (AlbumSubsequent groupId);
                    s3 = s2\<lparr>pendingAlbums := (pendingAlbums s2)(groupId \<mapsto>
                            \<lparr>messages = msgs, timer = t\<rparr>)\<rparr>
                in if length msgs \<ge> 2
                   then (s3\<lparr>pendingAlbums := (pendingAlbums s3)(groupId := None)\<rparr>, msgs)
                   else (s3, []))
           | None \<Rightarrow>
               (let (s1, t) = setTimeout s (AlbumInitial groupId)
                in (s1\<lparr>pendingAlbums := (pendingAlbums s1)(groupId \<mapsto>
                          \<lparr>messages = [m], timer = t\<rparr>)\<rparr>, []))))"

text \<open>
  The timer callbacks. A callback's return value goes to the timer machinery, which
  drops it: \<open>runCallback\<close> gives the state after the callback and the value it returned.
  The initial album timer deletes the group on both of its branches and returns the
  messages on the first.
\<close>

fun runCallback :: "manager \<Rightarrow> timer_callback \<Rightarrow> manager \<times> api_message list" where
  "runCallback s (PollTimeout phone p) =
     (settle (s\<lparr>updateHandlers := (updateHandlers s)(phone := None)\<rparr>) p [], [])"
| "runCallback s (AlbumInitial groupId) =
     (case pendingAlbums s groupId of
        None \<Rightarrow> (s\<lparr>pendingAlbums := (pendingAlbums s)(groupId := None)\<rparr>, [])
      | Some album \<Rightarrow>
          if length (messages album) = 1
          then (s\<lparr>pendingAlbums := (pendingAlbums s)(groupId := None)\<rparr>, messages album)
          else (s\<lparr>pendingAlbums := (pendingAlbums s)(groupId := None)\<rparr>, []))"
| "runCallback s (AlbumSubsequent groupId) =
     (s\<lparr>pendingAlbums := (pendingAlbums s)(groupId := None)\<rparr>, [])"

text \<open>
  A pending timer fires: it leaves the pending timers, its callback runs and the value
  the callback returned is dropped. The second component lists the updates the step
  hands to the router: none, as no callback calls it.
\<close>

definition fireTimer :: "manager \<Rightarrow> nat \<Rightarrow> manager \<times> delivery list" where
  "fireTimer s t =
     (case map_of (timers s) t of
        None \<Rightarrow> (s, [])
      | Some cb \<Rightarrow> (fst (runCallback (clearTimeout s t) cb), []))"

section \<open>Message events\<close>

text \<open>
  The values \<open>Date.now()\<close> has at the places where one message event reads the clock:
  in \<open>handleMessageUpdate\<close>, in \<open>cleanupProcessedMessages\<close>, in \<open>generateUpdateId\<close>
  and in the i-th call of \<open>convertToMessage\<close>.
\<close>

record clock =
  at_handle :: int
  at_cleanup :: int
  at_id :: int
  at_convert :: "nat \<Rightarrow> int"

definition convertToMessage :: "int \<Rightarrow> api_message \<Rightarrow> message" where
  "convertToMessage now m =
     \<lparr>message_id = id_raw m, date = now div 1000, text_m = message_raw m,
      group_id = groupedId m, out = out_raw m\<rparr>"

text \<open>
  The \<open>try\<close> block of \<open>handleMessageUpdate\<close>: the album assembler and the update built
  from its result. The second component lists the updates handed to the router. The
  album payload converts the messages first and takes the sequence number after; its
  identifier is the \<open>groupedId\<close> of the message of the event.
\<close>

definition handleMessageUpdate_try ::
    "manager \<Rightarrow> user \<Rightarrow> api_message \<Rightarrow> update_type \<Rightarrow> clock \<Rightarrow> manager \<times> delivery list" where
  "handleMessageUpdate_try s u m ty ck =
     (let (s3, msgs) = handleMediaAlbum s m
      in if length msgs = 0 then (s3, [])
         else
           (let handler = updateHandlers s3 (phoneNumber u);
                handlerOptions = (case handler of None \<Rightarrow> None | Some h \<Rightarrow> options_h h)
            in if length msgs > 1 \<and> shouldIncludeUpdate T_album handlerOptions
               then
                 (let albumMessages =
                        map (\<lambda>(i, msg). convertToMessage (at_convert ck i) msg)
                          (enumerate 0 msgs);
                      (s4, newId) = generateUpdateId s3 (phoneNumber u) (at_id ck)
                  in processUpdate s4 u
                       \<lparr>update_id = newId, payload = AlbumP (groupedId m) albumMessages\<rparr>)
               else
                 (let (s4, newId) = generateUpdateId s3 (phoneNumber u) (at_id ck)
                  in processUpdate s4 u
                       \<lparr>update_id = newId,
                        payload = MessageP ty (convertToMessage (at_convert ck 0) m)\<rparr>)))"

text \<open>
  \<open>handleMessageUpdate\<close>: the duplicate check, the insertion into the cache with the
  cleanup behind it, and the \<open>try\<close> block.
\<close>

definition handleMessageUpdate ::
    "manager \<Rightarrow> user \<Rightarrow> api_message \<Rightarrow> update_type \<Rightarrow> clock \<Rightarrow> manager \<times> delivery list" where
  "handleMessageUpdate s u m ty ck =
     (let messageKey = (phoneNumber u, id_raw m, ty)
      in if messageKey \<in> fst ` set (processedMessages s) then (s, [])
         else
           (let s1 = s\<lparr>processedMessages := processedMessages s @ [(messageKey, at_handle ck)]\<rparr>;
                s2 = (if length (processedMessages s1) > MAX_CACHE_SIZE
                      then cleanupProcessedMessages s1 (at_cleanup ck) else s1)
            in handleMessageUpdate_try s2 u m ty ck))"

section \<open>The webhook sender\<close>

text \<open>
  \<open>sendWebhook\<close>. The environment gives the outcome of the fetch of each attempt and
  the value of \<open>Math.floor(Math.random() * 200)\<close> drawn after it. A response that is
  not ok, an abort after the 5 s timeout and a transport failure all throw into the same
  catch block. The trace lists the attempts made and the waits between them.
  \<open>Math.pow(2, attempt) * 1000\<close> is exact in floating point up to the last retry, and
  beyond \<open>attempt = 4\<close> the minimum is the cap whatever the rounding of the sum.
\<close>

datatype fetch_outcome = Ok2xx | NotOk int | Aborted | TransportFailure

datatype webhook_event = Attempt nat | Wait int

datatype webhook_result = Delivered | Exhausted

definition maxRetries :: nat where
  "maxRetries = 50"

definition maxBackoffTime :: int where
  "maxBackoffTime = 30000"

definition backoffTime :: "(nat \<Rightarrow> int) \<Rightarrow> nat \<Rightarrow> int" where
  "backoffTime jitter attempt = min (jitter attempt + 2 ^ attempt * 1000) maxBackoffTime"

function sendWebhook_from ::
    "(nat \<Rightarrow> fetch_outcome) \<Rightarrow> (nat \<Rightarrow> int) \<Rightarrow> nat \<Rightarrow> webhook_event list \<times> webhook_result" where
  "sendWebhook_from fetch jitter attempt =
     (if attempt \<le> maxRetries
      then (case fetch attempt of
              Ok2xx \<Rightarrow> ([Attempt attempt], Delivered)
            | _ \<Rightarrow>
                if attempt = maxRetries then ([Attempt attempt], Exhausted)
                else (let (trace, r) = sendWebhook_from fetch jitter (attempt + 1)
                      in (Attempt attempt # Wait (backoffTime jitter attempt) # trace, r)))
      else ([], Exhausted))"
  by pat_completeness auto
termination
  by (relation "measure (\<lambda>(fetch, jitter, attempt). Suc maxRetries - attempt)") auto

declare sendWebhook_from.simps [simp del]

definition sendWebhook ::
    "(nat \<Rightarrow> fetch_outcome) \<Rightarrow> (nat \<Rightarrow> int) \<Rightarrow> webhook_event list \<times> webhook_result" where
  "sendWebhook fetch jitter = sendWebhook_from fetch jitter 0"

section \<open>Call sequences and example inputs\<close>



text \<open>
  Two accounts with the same phone number, one polling and one in webhook mode; an
  update with a given identifier; and the state of a new manager after the updates
  3 to 7 were buffered for the account.
\<close>

definition polling_user :: user where
  "polling_user =
     \<lparr>phoneNumber = ''+15550100'', updateMode = Polling, webhookUrl = None,
      webhookSecret = None\<rparr>"

definition webhook_user :: user where
  "webhook_user =
     \<lparr>phoneNumber = ''+15550100'', updateMode = Webhook,
      webhookUrl = Some ''https://example.org/hook'', webhookSecret = None\<rparr>"

definition upd :: "int \<Rightarrow> update" where
  "upd i = \<lparr>update_id = i, payload = OtherP T_typing\<rparr>"

definition buffered_3_to_7 :: manager where
  "buffered_3_to_7 =
     fold (\<lambda>i s. bufferUpdate s ''+15550100'' (upd i)) [3, 4, 5, 6, 7] initial_manager"

text \<open>The attempts and the waits of a trace, each in the order of the trace.\<close>

fun attempts_of :: "webhook_event list \<Rightarrow> nat list" where
  "attempts_of [] = []"
| "attempts_of (Attempt n # es) = n # attempts_of es"
| "attempts_of (Wait d # es) = attempts_of es"

fun waits_of :: "webhook_event list \<Rightarrow> int list" where
  "waits_of [] = []"
| "waits_of (Attempt n # es) = waits_of es"
| "waits_of (Wait d # es) = d # waits_of es"

text \<open>What a failed attempt that is not the last adds to the trace.\<close>

definition failing_round :: "(nat \<Rightarrow> int) \<Rightarrow> nat \<Rightarrow> webhook_event list" where
  "failing_round jitter n = [Attempt n, Wait (backoffTime jitter n)]"

text \<open>
  A message outside any album, and a clock that shows the same time at every reading
  made for one event.
\<close>

definition plain_message :: "int \<Rightarrow> api_message" where
  "plain_message i = \<lparr>id_raw = i, groupedId = None, message_raw = ''hello'', out_raw = False\<rparr>"

definition steady_clock :: "int \<Rightarrow> clock" where
  "steady_clock t = \<lparr>at_handle = t, at_cleanup = t, at_id = t, at_convert = (\<lambda>i. t)\<rparr>"

text \<open>
  A busy account: from a new manager, the messages 0, 1, 2, ... are processed one per
  millisecond. \<open>flood n\<close> is the state after the first \<open>n\<close> of them, and
  \<open>flood_entry i\<close> the cache entry that message \<open>i\<close> leaves.
\<close>

definition flood_step :: "manager \<Rightarrow> nat \<Rightarrow> manager" where
  "flood_step s i =
     fst (handleMessageUpdate s polling_user (plain_message (int i)) T_message
            (steady_clock (1700000000000 + int i)))"

definition flood :: "nat \<Rightarrow> manager" where
  "flood n = foldl flood_step initial_manager [0..<n]"

definition flood_entry :: "nat \<Rightarrow> message_key \<times> int" where
  "flood_entry i = ((''+15550100'', int i, T_message), 1700000000000 + int i)"

text \<open>The update a delivery carries.\<close>

fun update_of :: "delivery \<Rightarrow> update" where
  "update_of (ToWebhook v) = v"
| "update_of (ToBuffer v) = v"

text \<open>A fragment of an album: a message that carries a group identifier.\<close>

definition album_fragment :: "int \<Rightarrow> int \<Rightarrow> api_message" where
  "album_fragment i g = \<lparr>id_raw = i, groupedId = Some g, message_raw = ''photo'', out_raw = False\<rparr>"

text \<open>The options of a poll that excludes album updates.\<close>

definition no_albums :: update_options where
  "no_albums = \<lparr>allowed_updates = None, exclude_updates = Some [T_album]\<rparr>"

text \<open>A new manager on which the account waits in a long poll with these options.\<close>

definition polling_without_albums :: manager where
  "polling_without_albums =
     fst (getUpdates initial_manager polling_user None 100 30 (Some no_albums))"

section \<open>Properties\<close>

subsection \<open>Sequence numbers\<close>










subsection \<open>Polling\<close>

lemma clearHandlers_buffer [simp]: "updateBuffers (clearHandlers s phone) phone = Some []"
  by (simp add: clearHandlers_def Let_def)

lemma clearHandlers_handler [simp]: "updateHandlers (clearHandlers s phone) phone = None"
  by (simp add: clearHandlers_def Let_def)


lemma getBufferedUpdates_empty:
  assumes "updateBuffers s phone = Some []"
  shows "snd (getBufferedUpdates s phone offset) = []"
    and "updateBuffers (fst (getBufferedUpdates s phone offset)) phone = Some []"
    and "nextPromise (fst (getBufferedUpdates s phone offset)) = nextPromise s"
  using assms by (simp_all add: getBufferedUpdates_def Let_def split: option.splits)

lemma clearHandlers_nextPromise [simp]: "nextPromise (clearHandlers s phone) = nextPromise s"
  by (simp add: clearHandlers_def clearTimeout_def Let_def split: option.splits)

lemma getUpdates_polling:
  assumes "updateMode u \<noteq> Webhook"
  shows "updateBuffers (fst (getUpdates s u offset limit timeout options)) (phoneNumber u) = Some []"
    and "timeout = 0 \<Longrightarrow> snd (getUpdates s u offset limit timeout options) = Inr (Returned [])"
    and "timeout \<noteq> 0 \<Longrightarrow>
           snd (getUpdates s u offset limit timeout options) = Inr (Pending (nextPromise s))"
proof -
  let ?s1 = "clearHandlers s (phoneNumber u)"
  let ?g = "getBufferedUpdates ?s1 (phoneNumber u) offset"
  have e: "updateBuffers ?s1 (phoneNumber u) = Some []" by simp
  note g = getBufferedUpdates_empty [OF e, of offset]
  show "updateBuffers (fst (getUpdates s u offset limit timeout options)) (phoneNumber u) = Some []"
    using assms g
    by (simp add: getUpdates_def Let_def case_prod_unfold newPromise_def setTimeout_def)
  show "timeout = 0 \<Longrightarrow> snd (getUpdates s u offset limit timeout options) = Inr (Returned [])"
    using assms g by (simp add: getUpdates_def Let_def case_prod_unfold)
  show "timeout \<noteq> 0 \<Longrightarrow>
           snd (getUpdates s u offset limit timeout options) = Inr (Pending (nextPromise s))"
    using assms g
    by (simp add: getUpdates_def Let_def case_prod_unfold newPromise_def setTimeout_def)
qed



lemma buffered_3_to_7_buffer:
  "updateBuffers buffered_3_to_7 ''+15550100'' = Some [upd 3, upd 4, upd 5, upd 6, upd 7]"
  by (simp add: buffered_3_to_7_def bufferUpdate_def initial_manager_def Let_def)


text \<open>
  Claim C1. With the updates 3 to 7 buffered for a polling account,
  \<open>getBufferedUpdates\<close> with offset 5 would return the updates 6 and 7; \<open>getUpdates\<close>
  with offset 5 returns the empty list, and the five updates are gone from the buffer.
\<close>

theorem getUpdates_offset_5_returns_nothing:
  "updateBuffers buffered_3_to_7 ''+15550100'' = Some [upd 3, upd 4, upd 5, upd 6, upd 7]
   \<and> snd (getBufferedUpdates buffered_3_to_7 ''+15550100'' (Some 5)) = [upd 6, upd 7]
   \<and> snd (getUpdates buffered_3_to_7 polling_user (Some 5) 100 0 None) = Inr (Returned [])
   \<and> updateBuffers (fst (getUpdates buffered_3_to_7 polling_user (Some 5) 100 0 None))
        ''+15550100'' = Some []"
proof -
  have m: "updateMode polling_user \<noteq> Webhook" and p: "phoneNumber polling_user = ''+15550100''"
    by (simp_all add: polling_user_def)
  have "snd (getBufferedUpdates buffered_3_to_7 ''+15550100'' (Some 5)) = [upd 6, upd 7]"
    by (simp add: getBufferedUpdates_def buffered_3_to_7_buffer Let_def upd_def)
  then show ?thesis
    using getUpdates_polling(1,2) [OF m, where s = buffered_3_to_7 and offset = "Some 5" and limit = 100 and timeout = 0 and options = None] p
      buffered_3_to_7_buffer
    by simp
qed

text \<open>
  Claim C9. For an account in webhook mode \<open>getUpdates\<close> fails with the usage error and
  returns the state it was given: the buffer, the handlers and everything else are as
  before the call.
\<close>

theorem getUpdates_webhook_usage_error:
  "updateMode u = Webhook \<Longrightarrow>
     getUpdates s u offset limit timeout options = (s, Inl PollingWhileWebhook)"
  by (simp add: getUpdates_def)

theorem getUpdates_webhook_usage_error_witness:
  "updateMode webhook_user = Webhook
   \<and> getUpdates buffered_3_to_7 webhook_user (Some 5) 100 30 None
       = (buffered_3_to_7, Inl PollingWhileWebhook)
   \<and> updateBuffers (fst (getUpdates buffered_3_to_7 webhook_user (Some 5) 100 30 None))
        ''+15550100'' = Some [upd 3, upd 4, upd 5, upd 6, upd 7]"
proof -
  have w: "updateMode webhook_user = Webhook" by (simp add: webhook_user_def)
  show ?thesis
    using w getUpdates_webhook_usage_error [OF w, where s = buffered_3_to_7 and offset = "Some 5" and limit = 100 and timeout = 30 and options = None]
      buffered_3_to_7_buffer
    by simp
qed

subsection \<open>Webhook delivery\<close>

lemma sendWebhook_from_last:
  assumes "fetch maxRetries \<noteq> Ok2xx"
  shows "sendWebhook_from fetch jitter maxRetries = ([Attempt maxRetries], Exhausted)"
  using assms
  by (subst sendWebhook_from.simps) (simp split: fetch_outcome.splits)

lemma sendWebhook_from_retry:
  assumes "attempt < maxRetries" "fetch attempt \<noteq> Ok2xx"
  shows "sendWebhook_from fetch jitter attempt =
           (failing_round jitter attempt @ fst (sendWebhook_from fetch jitter (Suc attempt)),
            snd (sendWebhook_from fetch jitter (Suc attempt)))"
  using assms
  by (subst sendWebhook_from.simps)
    (simp add: failing_round_def case_prod_unfold Let_def split: fetch_outcome.splits)

lemma sendWebhook_from_failing:
  assumes "\<forall>n \<le> maxRetries. fetch n \<noteq> Ok2xx" "k \<le> maxRetries"
  shows "sendWebhook_from fetch jitter (maxRetries - k) =
           (concat (map (failing_round jitter) [maxRetries - k..<maxRetries]) @ [Attempt maxRetries],
            Exhausted)"
  using assms(2)
proof (induction k)
  case 0
  then show ?case using assms(1) by (simp add: sendWebhook_from_last)
next
  case (Suc k)
  have lt: "maxRetries - Suc k < maxRetries" using Suc.prems by simp
  have nx: "Suc (maxRetries - Suc k) = maxRetries - k" using Suc.prems by simp
  have f: "fetch (maxRetries - Suc k) \<noteq> Ok2xx" using assms(1) by simp
  have IH: "sendWebhook_from fetch jitter (maxRetries - k) =
           (concat (map (failing_round jitter) [maxRetries - k..<maxRetries]) @ [Attempt maxRetries],
            Exhausted)"
    using Suc by simp
  have u: "[maxRetries - Suc k..<maxRetries] = (maxRetries - Suc k) # [maxRetries - k..<maxRetries]"
    using lt nx by (simp add: upt_conv_Cons)
  show ?case
    by (simp only: sendWebhook_from_retry [where fetch = fetch, OF lt f] nx IH u) simp
qed

lemma attempts_of_rounds:
  "attempts_of (concat (map (failing_round jitter) ns) @ [Attempt m]) = ns @ [m]"
  by (induction ns) (simp_all add: failing_round_def)

lemma waits_of_rounds:
  "waits_of (concat (map (failing_round jitter) ns) @ [Attempt m]) = map (backoffTime jitter) ns"
  by (induction ns) (simp_all add: failing_round_def)

lemma backoffTime_mono:
  assumes "0 \<le> jitter n" "jitter n < 200" "0 \<le> jitter (Suc n)"
  shows "backoffTime jitter n \<le> backoffTime jitter (Suc n)"
proof -
  have "(1::int) \<le> 2 ^ n" by simp
  then have "(200::int) \<le> 2 ^ n * 1000" by linarith
  then have "jitter n + 2 ^ n * 1000 \<le> jitter (Suc n) + 2 ^ Suc n * 1000"
    using assms by simp
  then show ?thesis by (simp add: backoffTime_def)
qed

lemma backoffTime_sorted:
  assumes "\<forall>n. 0 \<le> jitter n \<and> jitter n < 200"
  shows "sorted (map (backoffTime jitter) [0..<k])"
proof -
  have "backoffTime jitter i \<le> backoffTime jitter (Suc i)" for i
    using assms by (simp add: backoffTime_mono)
  then show ?thesis
    by (simp add: sorted_iff_nth_Suc)
qed


text \<open>
  Claim C4. When no attempt succeeds (each one gets a response that is not ok, is
  aborted by the timeout or fails in transport), \<open>sendWebhook\<close> makes the attempts
  0 to 50, that is \<open>maxRetries + 1 = 51\<close> of them, and returns normally with the
  update undelivered. After each attempt \<open>n\<close> but the last it waits
  \<open>min 30000 (2 ^ n * 1000 + jitter n)\<close> milliseconds, and with every jitter in
  \<open>[0, 200)\<close> these waits never decrease.
\<close>

theorem sendWebhook_exhausts_after_51_attempts:
  assumes "\<forall>n \<le> maxRetries. fetch n \<noteq> Ok2xx"
    and "\<forall>n. 0 \<le> jitter n \<and> jitter n < 200"
  shows "snd (sendWebhook fetch jitter) = Exhausted
    \<and> fst (sendWebhook fetch jitter) =
        concat (map (\<lambda>n. [Attempt n, Wait (min (2 ^ n * 1000 + jitter n) 30000)]) [0..<50])
          @ [Attempt 50]
    \<and> attempts_of (fst (sendWebhook fetch jitter)) = [0..<51]
    \<and> length (attempts_of (fst (sendWebhook fetch jitter))) = maxRetries + 1
    \<and> waits_of (fst (sendWebhook fetch jitter)) =
        map (\<lambda>n. min 30000 (2 ^ n * 1000 + jitter n)) [0..<50]
    \<and> sorted (waits_of (fst (sendWebhook fetch jitter)))"
proof -
  have run: "sendWebhook fetch jitter =
      (concat (map (failing_round jitter) [0..<maxRetries]) @ [Attempt maxRetries], Exhausted)"
    using sendWebhook_from_failing [OF assms(1), of maxRetries jitter]
    by (simp add: sendWebhook_def)
  have r: "failing_round jitter = (\<lambda>n. [Attempt n, Wait (min (2 ^ n * 1000 + jitter n) 30000)])"
    by (rule ext) (simp add: failing_round_def backoffTime_def maxBackoffTime_def add.commute)
  have b: "backoffTime jitter = (\<lambda>n. min 30000 (2 ^ n * 1000 + jitter n))"
    by (rule ext) (simp add: backoffTime_def maxBackoffTime_def add.commute min.commute)
  have m: "maxRetries = 50" by (simp add: maxRetries_def)
  have w: "waits_of (fst (sendWebhook fetch jitter)) = map (backoffTime jitter) [0..<50]"
    by (simp add: run waits_of_rounds m)
  have a: "attempts_of (fst (sendWebhook fetch jitter)) = [0..<50] @ [50]"
    by (simp add: run attempts_of_rounds m)
  have a51: "[0..<50] @ [50] = [0..<51::nat]"
    by (simp add: upt_Suc_append [symmetric] del: upt_Suc)
  have s: "sorted (waits_of (fst (sendWebhook fetch jitter)))"
    unfolding w using assms(2) by (rule backoffTime_sorted)
  have t: "fst (sendWebhook fetch jitter) =
        concat (map (\<lambda>n. [Attempt n, Wait (min (2 ^ n * 1000 + jitter n) 30000)]) [0..<50])
          @ [Attempt 50]"
    using run r m by simp
  have l: "length (attempts_of (fst (sendWebhook fetch jitter))) = maxRetries + 1"
    by (simp add: a m)
  show ?thesis
    using run t a a51 l w b s by simp
qed


theorem sendWebhook_exhausts_after_51_attempts_witness:
  "(\<forall>n. (0::int) \<le> (\<lambda>n. int (n mod 7) * 25) n \<and> (\<lambda>n. int (n mod 7) * 25) n < 200)
   \<and> snd (sendWebhook (\<lambda>_. NotOk 500) (\<lambda>n. int (n mod 7) * 25)) = Exhausted
   \<and> length (attempts_of (fst (sendWebhook (\<lambda>_. NotOk 500) (\<lambda>n. int (n mod 7) * 25)))) = 51
   \<and> take 6 (waits_of (fst (sendWebhook (\<lambda>_. NotOk 500) (\<lambda>n. int (n mod 7) * 25))))
        = [1000, 2025, 4050, 8075, 16100, 30000]"
proof -
  have f: "\<forall>n \<le> maxRetries. (\<lambda>_. NotOk 500) n \<noteq> Ok2xx" by simp
  have j: "\<forall>n. (0::int) \<le> (\<lambda>n. int (n mod 7) * 25) n \<and> (\<lambda>n. int (n mod 7) * 25) n < 200"
  proof
    fix n :: nat
    have "n mod 7 < 7" by simp
    then have "int (n mod 7) < 7" by linarith
    then show "(0::int) \<le> (\<lambda>n. int (n mod 7) * 25) n \<and> (\<lambda>n. int (n mod 7) * 25) n < 200"
      by simp
  qed
  note run = sendWebhook_exhausts_after_51_attempts [OF f j]
  have r: "snd (sendWebhook (\<lambda>_. NotOk 500) (\<lambda>n. int (n mod 7) * 25)) = Exhausted"
    using run by blast
  have "length (attempts_of (fst (sendWebhook (\<lambda>_. NotOk 500) (\<lambda>n. int (n mod 7) * 25))))
      = maxRetries + 1"
    using run by blast
  then have a: "length (attempts_of (fst (sendWebhook (\<lambda>_. NotOk 500) (\<lambda>n. int (n mod 7) * 25)))) = 51"
    by (simp add: maxRetries_def)
  have w: "waits_of (fst (sendWebhook (\<lambda>_. NotOk 500) (\<lambda>n. int (n mod 7) * 25))) =
        map (\<lambda>n. min 30000 (2 ^ n * 1000 + int (n mod 7) * 25)) [0..<50]"
    using run by blast
  have six: "take 6 [0..<50] = [0, 1, 2, 3, 4, 5::nat]"
    by (simp add: take_upt upt_conv_Cons)
  have t: "take 6 (waits_of (fst (sendWebhook (\<lambda>_. NotOk 500) (\<lambda>n. int (n mod 7) * 25))))
        = [1000, 2025, 4050, 8075, 16100, 30000]"
    by (simp only: w take_map six) simp
  show ?thesis
    using j r a t by blast
qed

subsection \<open>The dedup cache\<close>

lemma fold_cache_delete:
  "fold (\<lambda>e c. cache_delete (fst e) c) vs c = filter (\<lambda>e. fst e \<notin> fst ` set vs) c"
proof (induction vs arbitrary: c)
  case Nil
  then show ?case by simp
next
  case (Cons v vs)
  have "filter (\<lambda>e. fst e \<notin> fst ` set vs) (cache_delete (fst v) c)
      = filter (\<lambda>e. fst e \<notin> fst ` set (v # vs)) c"
    by (auto simp: cache_delete_def intro: filter_cong)
  then show ?case using Cons.IH by simp
qed

lemma delete_victims:
  assumes "distinct (map fst kept)" "set vs \<subseteq> set kept"
  shows "filter (\<lambda>e. fst e \<notin> fst ` set vs) kept = filter (\<lambda>e. e \<notin> set vs) kept"
proof (rule filter_cong [OF refl])
  fix e assume e: "e \<in> set kept"
  have "e \<in> set vs" if "fst e \<in> fst ` set vs"
  proof -
    from that obtain v where v: "v \<in> set vs" "fst e = fst v" by auto
    then have "v \<in> set kept" using assms(2) by auto
    then have "e = v" using assms(1) e v(2) by (meson distinct_map inj_onD)
    then show ?thesis using v(1) by simp
  qed
  then show "(fst e \<notin> fst ` set vs) = (e \<notin> set vs)" by auto
qed

lemma evict_oldest:
  assumes d: "distinct (map fst kept)" and n: "n \<le> length kept"
  defines "victims \<equiv> take n (sort_key snd kept)"
  defines "rest \<equiv> fold (\<lambda>e c. cache_delete (fst e) c) victims kept"
  shows "rest = filter (\<lambda>e. e \<notin> set victims) kept"
    and "set rest = set (drop n (sort_key snd kept))"
    and "length rest = length kept - n"
    and "\<forall>v \<in> set victims. \<forall>e \<in> set rest. snd v \<le> snd e"
proof -
  have dk: "distinct kept" using d by (simp add: distinct_map)
  have ds: "distinct (sort_key snd kept)" using dk by simp
  have sub: "set victims \<subseteq> set kept"
    using set_take_subset [of n "sort_key snd kept"] by (simp add: victims_def)
  show r: "rest = filter (\<lambda>e. e \<notin> set victims) kept"
    unfolding rest_def fold_cache_delete using d sub by (rule delete_victims)
  have split: "set kept = set victims \<union> set (drop n (sort_key snd kept))"
    using set_append [of "take n (sort_key snd kept)" "drop n (sort_key snd kept)"]
    by (simp add: victims_def)
  have disj: "set victims \<inter> set (drop n (sort_key snd kept)) = {}"
    unfolding victims_def using ds by (rule set_take_disj_set_drop_if_distinct) simp
  show s: "set rest = set (drop n (sort_key snd kept))"
    using split disj by (auto simp: r)
  have "distinct rest" using dk by (simp add: r)
  then have "length rest = card (set (drop n (sort_key snd kept)))"
    using s by (metis distinct_card)
  also have "\<dots> = length (drop n (sort_key snd kept))"
    using ds by (simp add: distinct_card)
  finally show "length rest = length kept - n" by simp
  have "sorted (map snd (take n (sort_key snd kept) @ drop n (sort_key snd kept)))"
    by (simp add: sorted_sort_key)
  then have "\<forall>v \<in> set (take n (sort_key snd kept)). \<forall>e \<in> set (drop n (sort_key snd kept)).
      snd v \<le> snd e"
    unfolding map_append sorted_append by auto
  then show "\<forall>v \<in> set victims. \<forall>e \<in> set rest. snd v \<le> snd e"
    by (simp add: s victims_def)
qed

lemma unexpired_eq:
  "unexpired now c = filter (\<lambda>e. \<not> snd e < now - MESSAGE_CACHE_TTL) c"
  by (simp add: unexpired_def)

lemma cleanup_cases:
  "length (filter (\<lambda>e. \<not> snd e < now - MESSAGE_CACHE_TTL) (processedMessages s)) \<le> MAX_CACHE_SIZE \<Longrightarrow>
     processedMessages (cleanupProcessedMessages s now)
       = filter (\<lambda>e. \<not> snd e < now - MESSAGE_CACHE_TTL) (processedMessages s)"
  "length (filter (\<lambda>e. \<not> snd e < now - MESSAGE_CACHE_TTL) (processedMessages s)) > MAX_CACHE_SIZE \<Longrightarrow>
     processedMessages (cleanupProcessedMessages s now)
       = (let kept = filter (\<lambda>e. \<not> snd e < now - MESSAGE_CACHE_TTL) (processedMessages s)
          in fold (\<lambda>e c. cache_delete (fst e) c)
               (take (length kept - MAX_CACHE_SIZE) (sort_key snd kept)) kept)"
  by (simp_all add: cleanupProcessedMessages_def unexpired_def Let_def)



lemma getBufferedUpdates_cache [simp]:
  "processedMessages (fst (getBufferedUpdates s phone offset)) = processedMessages s"
  by (simp add: getBufferedUpdates_def Let_def split: option.splits)

lemma bufferUpdate_cache [simp]:
  "processedMessages (bufferUpdate s phone v) = processedMessages s"
proof -
  have g: "processedMessages (fst (getBufferedUpdates s' phone off)) = processedMessages s'"
    for s' off by simp
  show ?thesis
    by (simp add: bufferUpdate_def Let_def case_prod_unfold settle_def clearTimeout_def
        split: option.splits)
qed

lemma processUpdate_cache [simp]:
  "processedMessages (fst (processUpdate s u v)) = processedMessages s"
  by (simp add: processUpdate_def)

lemma generateUpdateId_cache [simp]:
  "processedMessages (fst (generateUpdateId s phone now)) = processedMessages s"
  by (simp add: generateUpdateId_def Let_def)

lemma handleMediaAlbum_cache [simp]:
  "processedMessages (fst (handleMediaAlbum s m)) = processedMessages s"
  by (simp add: handleMediaAlbum_def Let_def setTimeout_def clearTimeout_def case_prod_unfold
      split: option.splits)

lemma handleMessageUpdate_duplicate:
  "(phoneNumber u, id_raw m, ty) \<in> fst ` set (processedMessages s) \<Longrightarrow>
     handleMessageUpdate s u m ty ck = (s, [])"
  by (simp add: handleMessageUpdate_def)

lemma processUpdate_one: "length (snd (processUpdate s u v)) = 1"
  by (simp add: processUpdate_def)

lemma handleMessageUpdate_try_cache [simp]:
  "processedMessages (fst (handleMessageUpdate_try s u m ty ck)) = processedMessages s"
  by (simp add: handleMessageUpdate_try_def Let_def case_prod_unfold)

lemma handleMessageUpdate_try_at_most_one:
  "length (snd (handleMessageUpdate_try s u m ty ck)) \<le> 1"
  by (simp add: handleMessageUpdate_try_def Let_def case_prod_unfold processUpdate_one)

lemma handleMessageUpdate_at_most_one:
  "length (snd (handleMessageUpdate s u m ty ck)) \<le> 1"
  by (simp add: handleMessageUpdate_def Let_def handleMessageUpdate_try_at_most_one [simplified])

lemma handleMessageUpdate_cache:
  assumes "(phoneNumber u, id_raw m, ty) \<notin> fst ` set (processedMessages s)"
  shows "processedMessages (fst (handleMessageUpdate s u m ty ck)) =
     (if length (processedMessages s) + 1 > MAX_CACHE_SIZE
      then processedMessages (cleanupProcessedMessages
             (s\<lparr>processedMessages :=
                  processedMessages s @ [((phoneNumber u, id_raw m, ty), at_handle ck)]\<rparr>)
             (at_cleanup ck))
      else processedMessages s @ [((phoneNumber u, id_raw m, ty), at_handle ck)])"
  using assms
  by (simp add: handleMessageUpdate_def Let_def case_prod_unfold)

lemma handleMessageUpdate_plain:
  assumes "(phoneNumber u, id_raw m, ty) \<notin> fst ` set (processedMessages s)"
    and "groupedId m = None"
  shows "length (snd (handleMessageUpdate s u m ty ck)) = 1"
  using assms
  by (simp add: handleMessageUpdate_def handleMessageUpdate_try_def Let_def case_prod_unfold
      handleMediaAlbum_def processUpdate_one)

lemma flood_Suc: "flood (Suc n) = flood_step (flood n) n"
  by (simp add: flood_def)

lemma flood_key_fresh: "n \<le> i \<Longrightarrow> fst (flood_entry i) \<notin> fst ` set (map flood_entry [m..<n])"
  by (auto simp: flood_entry_def)

lemma flood_step_key:
  "(phoneNumber polling_user, id_raw (plain_message (int i)), T_message) = fst (flood_entry i)"
  "at_handle (steady_clock (1700000000000 + int i)) = snd (flood_entry i)"
  by (simp_all add: polling_user_def plain_message_def flood_entry_def steady_clock_def)

lemma flood_cache_below:
  "n \<le> MAX_CACHE_SIZE \<Longrightarrow> processedMessages (flood n) = map flood_entry [0..<n]"
proof (induction n)
  case 0
  then show ?case by (simp add: flood_def initial_manager_def)
next
  case (Suc n)
  then have c: "processedMessages (flood n) = map flood_entry [0..<n]" by simp
  have fresh: "(phoneNumber polling_user, id_raw (plain_message (int n)), T_message)
      \<notin> fst ` set (processedMessages (flood n))"
    unfolding flood_step_key c by (rule flood_key_fresh) simp
  have small: "\<not> length (processedMessages (flood n)) + 1 > MAX_CACHE_SIZE"
    using Suc.prems by (simp add: c)
  show ?case
    unfolding flood_Suc flood_step_def handleMessageUpdate_cache [OF fresh]
    using small by (simp add: c flood_step_key)
qed


lemma flood_entries_sorted: "sorted (map snd (map flood_entry [m..<n]))"
proof -
  have "sorted_wrt (\<lambda>i j. snd (flood_entry i) \<le> snd (flood_entry j)) [m..<n]"
    by (rule sorted_wrt_mono_rel [OF _ sorted_wrt_upt]) (simp add: flood_entry_def)
  then show ?thesis by (simp add: sorted_wrt_map del: upt_Suc)
qed

lemma flood_entries_unexpired:
  "n \<le> 60000 \<Longrightarrow>
     unexpired (1700000000000 + int n) (map flood_entry [m..<Suc n]) = map flood_entry [m..<Suc n]"
proof -
  assume n: "n \<le> 60000"
  have "\<forall>e \<in> set (map flood_entry [m..<Suc n]).
      \<not> snd e < 1700000000000 + int n - MESSAGE_CACHE_TTL"
    using n by (auto simp: flood_entry_def MESSAGE_CACHE_TTL_def)
  then show ?thesis
    unfolding unexpired_eq by (rule filter_True)
qed

lemma flood_cache_overflow:
  "processedMessages (flood (Suc MAX_CACHE_SIZE)) = map flood_entry [1..<Suc MAX_CACHE_SIZE]"
proof -
  let ?n = MAX_CACHE_SIZE
  let ?all = "map flood_entry [0..<Suc ?n]"
  have c: "processedMessages (flood ?n) = map flood_entry [0..<?n]"
    by (rule flood_cache_below) simp
  have fresh: "(phoneNumber polling_user, id_raw (plain_message (int ?n)), T_message)
      \<notin> fst ` set (processedMessages (flood ?n))"
    unfolding flood_step_key c by (rule flood_key_fresh) simp
  have big: "length (processedMessages (flood ?n)) + 1 > ?n" by (simp add: c)
  have ins: "processedMessages (flood ?n) @ [flood_entry ?n] = ?all"
    by (simp add: c)
  have n6: "?n \<le> 60000" by (simp add: MAX_CACHE_SIZE_def)
  have kept: "unexpired (1700000000000 + int ?n) ?all = ?all"
    using n6 by (rule flood_entries_unexpired)
  have len: "length ?all - ?n = 1" "length ?all > ?n" by simp_all
  have srt: "sort_key snd ?all = ?all"
    by (rule sort_key_id_if_sorted) (rule flood_entries_sorted)
  have hd: "take 1 ?all = [flood_entry 0]"
    by (simp add: upt_conv_Cons del: upt_Suc)
  have tl: "?all = flood_entry 0 # map flood_entry [1..<Suc ?n]"
    by (simp add: upt_conv_Cons del: upt_Suc)
  have "fold (\<lambda>e c. cache_delete (fst e) c) [flood_entry 0] ?all
      = filter (\<lambda>e. fst e \<noteq> fst (flood_entry 0)) ?all"
    by (simp add: cache_delete_def)
  also have "\<dots> = filter (\<lambda>e. fst e \<noteq> fst (flood_entry 0)) (map flood_entry [1..<Suc ?n])"
    by (subst tl) simp
  also have "\<dots> = map flood_entry [1..<Suc ?n]"
    by (rule filter_True) (auto simp: flood_entry_def)
  finally have del: "fold (\<lambda>e c. cache_delete (fst e) c) [flood_entry 0] ?all
      = map flood_entry [1..<Suc ?n]" .
  have cl: "processedMessages (cleanupProcessedMessages
        ((flood ?n)\<lparr>processedMessages := ?all\<rparr>) (1700000000000 + int ?n))
      = map flood_entry [1..<Suc ?n]"
  proof -
    have sel: "processedMessages ((flood ?n)\<lparr>processedMessages := ?all\<rparr>) = ?all" by simp
    have g: "length (filter (\<lambda>e. \<not> snd e < 1700000000000 + int ?n - MESSAGE_CACHE_TTL)
        (processedMessages ((flood ?n)\<lparr>processedMessages := ?all\<rparr>))) > ?n"
      unfolding unexpired_eq [symmetric] by (simp only: sel kept len)
    show ?thesis
      using cleanup_cases(2) [OF g]
      unfolding unexpired_eq [symmetric]
      by (simp only: sel kept Let_def len srt hd del)
  qed
  have "processedMessages (flood (Suc ?n)) =
      processedMessages (cleanupProcessedMessages
        ((flood ?n)\<lparr>processedMessages := processedMessages (flood ?n) @ [flood_entry ?n]\<rparr>)
        (1700000000000 + int ?n))"
    unfolding flood_Suc flood_step_def handleMessageUpdate_cache [OF fresh]
    using big by (simp add: flood_step_key steady_clock_def) (simp add: flood_entry_def)
  then show ?thesis by (simp only: ins cl)
qed

lemma flood_forgets_first:
  "(phoneNumber polling_user, id_raw (plain_message 0), T_message)
     \<notin> fst ` set (processedMessages (flood (Suc MAX_CACHE_SIZE)))"
proof -
  have "fst (flood_entry 0) \<notin> fst ` set (map flood_entry [1..<Suc MAX_CACHE_SIZE])"
    by (auto simp: flood_entry_def)
  then show ?thesis
    using flood_step_key(1) [of 0] by (simp add: flood_cache_overflow)
qed

lemma insort_key_snoc:
  "f x \<le> f y \<Longrightarrow> insort_key f x (zs @ [y]) = insort_key f x zs @ [y]"
  by (induction zs) simp_all

lemma sort_key_snoc:
  "\<forall>x \<in> set xs. f x \<le> f y \<Longrightarrow> sort_key f (xs @ [y]) = sort_key f xs @ [y]"
proof (induction xs)
  case Nil
  then show ?case by (simp add: sort_key_def)
next
  case (Cons x xs)
  then have IH: "sort_key f (xs @ [y]) = sort_key f xs @ [y]" and le: "f x \<le> f y" by simp_all
  have "sort_key f ((x # xs) @ [y]) = insort_key f x (sort_key f (xs @ [y]))"
    by (simp add: sort_key_def)
  also have "\<dots> = insort_key f x (sort_key f xs) @ [y]"
    unfolding IH using le by (rule insort_key_snoc)
  finally show ?case by (simp add: sort_key_def)
qed

lemma newest_survives_cleanup:
  assumes d: "distinct (map fst (processedMessages s))"
    and k: "k \<notin> fst ` set (processedMessages s)"
    and newest: "\<forall>e \<in> set (processedMessages s). snd e \<le> t"
    and live: "\<not> t < now - MESSAGE_CACHE_TTL"
  shows "(k, t) \<in> set (processedMessages (cleanupProcessedMessages
            (s\<lparr>processedMessages := processedMessages s @ [(k, t)]\<rparr>) now))"
proof -
  let ?c = "processedMessages s"
  let ?s1 = "s\<lparr>processedMessages := ?c @ [(k, t)]\<rparr>"
  let ?kc = "filter (\<lambda>e. \<not> snd e < now - MESSAGE_CACHE_TTL) ?c"
  let ?kept = "filter (\<lambda>e. \<not> snd e < now - MESSAGE_CACHE_TTL) (processedMessages ?s1)"
  have kept: "?kept = ?kc @ [(k, t)]" using live by simp
  have d1: "distinct (map fst (?c @ [(k, t)]))" using d k by simp
  have "distinct (map fst (filter (\<lambda>e. \<not> snd e < now - MESSAGE_CACHE_TTL) (?c @ [(k, t)])))"
    using d1 by (rule distinct_map_filter)
  then have dk: "distinct (map fst ?kept)" by simp
  show ?thesis
  proof (cases "length ?kept \<le> MAX_CACHE_SIZE")
    case True
    then show ?thesis using cleanup_cases(1) [of now ?s1] kept by simp
  next
    case False
    then have gt: "length ?kept > MAX_CACHE_SIZE" by simp
    let ?n = "length ?kept - MAX_CACHE_SIZE"
    have n: "?n \<le> length ?kc" by (simp add: kept MAX_CACHE_SIZE_def)
    have srt: "sort_key snd ?kept = sort_key snd ?kc @ [(k, t)]"
      unfolding kept using newest by (intro sort_key_snoc) auto
    have vic: "take ?n (sort_key snd ?kept) = take ?n (sort_key snd ?kc)"
      unfolding srt using n by simp
    have "set (take ?n (sort_key snd ?kc)) \<subseteq> set ?c"
      using set_take_subset [of ?n "sort_key snd ?kc"] by auto
    then have notv: "(k, t) \<notin> set (take ?n (sort_key snd ?kept))"
      unfolding vic using k by force
    have c': "processedMessages (cleanupProcessedMessages ?s1 now)
        = filter (\<lambda>e. e \<notin> set (take ?n (sort_key snd ?kept))) ?kept"
      using cleanup_cases(2) [OF gt] evict_oldest(1) [OF dk, of ?n]
      by (simp add: Let_def)
    show ?thesis unfolding c' using notv kept by simp
  qed
qed

lemma handleMessageUpdate_remembers:
  assumes d: "distinct (map fst (processedMessages s))"
    and k: "(phoneNumber u, id_raw m, ty) \<notin> fst ` set (processedMessages s)"
    and newest: "\<forall>e \<in> set (processedMessages s). snd e \<le> at_handle ck"
    and live: "at_cleanup ck - MESSAGE_CACHE_TTL \<le> at_handle ck"
  shows "(phoneNumber u, id_raw m, ty)
           \<in> fst ` set (processedMessages (fst (handleMessageUpdate s u m ty ck)))"
proof -
  have l: "\<not> at_handle ck < at_cleanup ck - MESSAGE_CACHE_TTL" using live by simp
  have "((phoneNumber u, id_raw m, ty), at_handle ck)
      \<in> set (processedMessages (fst (handleMessageUpdate s u m ty ck)))"
    unfolding handleMessageUpdate_cache [OF k]
    using newest_survives_cleanup [OF d k newest l] by simp
  then show ?thesis by force
qed

text \<open>
  Claim C7, amended. An event whose key is in the dedup cache is dropped: the state,
  so also the last sequence number, is as before, and nothing is handed to the router.
  Any event hands over at most one update. The key is in the cache after its first
  processing (the clock not running backwards and the cleanup reading it less than the
  TTL later), so that processing the event again right then changes and emits nothing.
\<close>

theorem duplicate_in_cache_is_dropped:
  "((phoneNumber u, id_raw m, ty) \<in> fst ` set (processedMessages s) \<longrightarrow>
       handleMessageUpdate s u m ty ck = (s, []))
   \<and> length (snd (handleMessageUpdate s u m ty ck)) \<le> 1
   \<and> (distinct (map fst (processedMessages s))
        \<and> (\<forall>e \<in> set (processedMessages s). snd e \<le> at_handle ck)
        \<and> at_cleanup ck - MESSAGE_CACHE_TTL \<le> at_handle ck \<longrightarrow>
       handleMessageUpdate (fst (handleMessageUpdate s u m ty ck)) u m ty ck'
         = (fst (handleMessageUpdate s u m ty ck), []))"
proof -
  have again: "handleMessageUpdate (fst (handleMessageUpdate s u m ty ck)) u m ty ck'
         = (fst (handleMessageUpdate s u m ty ck), [])"
    if d: "distinct (map fst (processedMessages s))"
      and n: "\<forall>e \<in> set (processedMessages s). snd e \<le> at_handle ck"
      and l: "at_cleanup ck - MESSAGE_CACHE_TTL \<le> at_handle ck"
  proof (cases "(phoneNumber u, id_raw m, ty) \<in> fst ` set (processedMessages s)")
    case True
    then show ?thesis by (simp add: handleMessageUpdate_duplicate)
  next
    case False
    show ?thesis
      by (rule handleMessageUpdate_duplicate) (rule handleMessageUpdate_remembers [OF d False n l])
  qed
  show ?thesis
    using handleMessageUpdate_duplicate [of u m ty s ck] handleMessageUpdate_at_most_one [of s u m ty ck]
      again
    by blast
qed

theorem duplicate_in_cache_is_dropped_witness:
  "length (snd (handleMessageUpdate initial_manager polling_user (plain_message 7) T_message
       (steady_clock 1700000000000))) = 1
   \<and> handleMessageUpdate
        (fst (handleMessageUpdate initial_manager polling_user (plain_message 7) T_message
           (steady_clock 1700000000000)))
        polling_user (plain_message 7) T_message (steady_clock 1700000000500)
       = (fst (handleMessageUpdate initial_manager polling_user (plain_message 7) T_message
           (steady_clock 1700000000000)), [])"
proof -
  have i: "processedMessages initial_manager = []" by (simp add: initial_manager_def)
  have one: "length (snd (handleMessageUpdate initial_manager polling_user (plain_message 7)
      T_message (steady_clock 1700000000000))) = 1"
    by (rule handleMessageUpdate_plain) (simp_all add: i plain_message_def)
  have h: "distinct (map fst (processedMessages initial_manager))
        \<and> (\<forall>e \<in> set (processedMessages initial_manager). snd e \<le> at_handle (steady_clock 1700000000000))
        \<and> at_cleanup (steady_clock 1700000000000) - MESSAGE_CACHE_TTL
            \<le> at_handle (steady_clock 1700000000000)"
    by (simp add: i steady_clock_def MESSAGE_CACHE_TTL_def)
  show ?thesis
    using one h duplicate_in_cache_is_dropped [of polling_user "plain_message 7" T_message
        initial_manager "steady_clock 1700000000000" "steady_clock 1700000000500"]
    by blast
qed

text \<open>
  The claim as stated fails under load. A message is processed at time 1700000000000
  and gives an update; a thousand other messages follow, one each millisecond, and the
  insertion of the last one overflows the cache, whose oldest entry, the first
  message's, is evicted. The first message is seen again 1001 ms after its first
  processing, far within the TTL of 60000 ms, and gives a second update.
\<close>

theorem duplicate_within_ttl_counterexample:
  "length (snd (handleMessageUpdate initial_manager polling_user (plain_message 0) T_message
       (steady_clock 1700000000000))) = 1
   \<and> flood (Suc MAX_CACHE_SIZE)
       = foldl flood_step
           (fst (handleMessageUpdate initial_manager polling_user (plain_message 0) T_message
              (steady_clock 1700000000000)))
           [1..<Suc MAX_CACHE_SIZE]
   \<and> length (snd (handleMessageUpdate (flood (Suc MAX_CACHE_SIZE)) polling_user (plain_message 0)
       T_message (steady_clock 1700000001001))) = 1
   \<and> (1700000001001 :: int) - 1700000000000 < MESSAGE_CACHE_TTL"
proof -
  have i: "processedMessages initial_manager = []" by (simp add: initial_manager_def)
  have one: "length (snd (handleMessageUpdate initial_manager polling_user (plain_message 0)
      T_message (steady_clock 1700000000000))) = 1"
    by (rule handleMessageUpdate_plain) (simp_all add: i plain_message_def)
  have "[0..<Suc MAX_CACHE_SIZE] = 0 # [1..<Suc MAX_CACHE_SIZE]"
    by (simp add: upt_conv_Cons del: upt_Suc)
  then have run: "flood (Suc MAX_CACHE_SIZE)
       = foldl flood_step
           (fst (handleMessageUpdate initial_manager polling_user (plain_message 0) T_message
              (steady_clock 1700000000000)))
           [1..<Suc MAX_CACHE_SIZE]"
    by (simp add: flood_def flood_step_def del: upt_Suc)
  have two: "length (snd (handleMessageUpdate (flood (Suc MAX_CACHE_SIZE)) polling_user
      (plain_message 0) T_message (steady_clock 1700000001001))) = 1"
    by (rule handleMessageUpdate_plain [OF flood_forgets_first]) (simp add: plain_message_def)
  show ?thesis
    using one run two by (simp add: MESSAGE_CACHE_TTL_def)
qed





subsection \<open>Long polls\<close>








subsection \<open>Albums\<close>

lemma cleanup_frame:
  "cleanupProcessedMessages s now
     = s\<lparr>processedMessages := processedMessages (cleanupProcessedMessages s now)\<rparr>"
  by (simp add: cleanupProcessedMessages_def Let_def)

lemma cleanup_subset:
  "set (processedMessages (cleanupProcessedMessages s now)) \<subseteq> set (processedMessages s)"
  by (auto simp: cleanupProcessedMessages_def Let_def fold_cache_delete unexpired_eq)

lemma handleMessageUpdate_fresh:
  assumes "(phoneNumber u, id_raw m, ty) \<notin> fst ` set (processedMessages s)"
  shows "\<exists>C. set C \<subseteq> insert ((phoneNumber u, id_raw m, ty), at_handle ck) (set (processedMessages s))
           \<and> handleMessageUpdate s u m ty ck
               = handleMessageUpdate_try (s\<lparr>processedMessages := C\<rparr>) u m ty ck"
proof -
  let ?ins = "processedMessages s @ [((phoneNumber u, id_raw m, ty), at_handle ck)]"
  let ?s1 = "s\<lparr>processedMessages := ?ins\<rparr>"
  show ?thesis
  proof (cases "length ?ins > MAX_CACHE_SIZE")
    case True
    let ?C = "processedMessages (cleanupProcessedMessages ?s1 (at_cleanup ck))"
    have "cleanupProcessedMessages ?s1 (at_cleanup ck) = s\<lparr>processedMessages := ?C\<rparr>"
      by (subst cleanup_frame) simp
    then have "handleMessageUpdate s u m ty ck
        = handleMessageUpdate_try (s\<lparr>processedMessages := ?C\<rparr>) u m ty ck"
      using assms True by (simp add: handleMessageUpdate_def Let_def)
    moreover have "set ?C \<subseteq> insert ((phoneNumber u, id_raw m, ty), at_handle ck)
        (set (processedMessages s))"
      using cleanup_subset [of ?s1 "at_cleanup ck"] by auto
    ultimately show ?thesis by blast
  next
    case False
    then have "handleMessageUpdate s u m ty ck
        = handleMessageUpdate_try (s\<lparr>processedMessages := ?ins\<rparr>) u m ty ck"
      using assms by (simp add: handleMessageUpdate_def Let_def)
    moreover have "set ?ins \<subseteq> insert ((phoneNumber u, id_raw m, ty), at_handle ck)
        (set (processedMessages s))"
      by auto
    ultimately show ?thesis by blast
  qed
qed

lemma try_first_fragment:
  assumes "groupedId a = Some g" "pendingAlbums s g = None"
  shows "handleMessageUpdate_try s u a ty ck
     = (s\<lparr>timers := (nextTimer s, AlbumInitial g) # timers s, nextTimer := Suc (nextTimer s),
          pendingAlbums := (pendingAlbums s)(g \<mapsto> \<lparr>messages = [a], timer = nextTimer s\<rparr>)\<rparr>, [])"
  using assms
  by (simp add: handleMessageUpdate_try_def handleMediaAlbum_def setTimeout_def Let_def)

lemma sort_two:
  "sort_key f [a, b] = (if f a \<le> f b then [a, b] else [b, a])"
  by (simp add: sort_key_def)

lemma try_second_fragment:
  assumes "groupedId b = Some g" "pendingAlbums s g = Some \<lparr>messages = [a], timer = t\<rparr>"
    and "shouldIncludeUpdate T_album
           (case updateHandlers s (phoneNumber u) of None \<Rightarrow> None | Some h \<Rightarrow> options_h h)"
  shows "map update_of (snd (handleMessageUpdate_try s u b ty ck))
     = [\<lparr>update_id = snd (generateUpdateId s (phoneNumber u) (at_id ck)),
         payload = AlbumP (Some g)
           (if id_raw a \<le> id_raw b
            then [convertToMessage (at_convert ck 0) a, convertToMessage (at_convert ck 1) b]
            else [convertToMessage (at_convert ck 0) b, convertToMessage (at_convert ck 1) a])\<rparr>]"
  using assms
  by (simp add: handleMessageUpdate_try_def handleMediaAlbum_def setTimeout_def clearTimeout_def
      Let_def sort_two generateUpdateId_def processUpdate_def)

text \<open>
  Claim C6, amended. Two fragments of one group, neither processed before, the second
  not a repeat of the first, arrive with no album of that group pending before the
  first and with nothing else between them. The first hands no update to the router.
  Unless the options of the account's waiter exclude album updates, the second hands
  over exactly one update: an album with the identifier of the group and both
  fragments, the one with the smaller message id first.
\<close>

theorem two_fragments_make_one_album:
  assumes "groupedId a = Some g" and "groupedId b = Some g"
    and "pendingAlbums s g = None"
    and "(phoneNumber u, id_raw a, ta) \<notin> fst ` set (processedMessages s)"
    and "(phoneNumber u, id_raw b, tb) \<notin> fst ` set (processedMessages s)"
    and "(id_raw a, ta) \<noteq> (id_raw b, tb)"
    and "shouldIncludeUpdate T_album
           (case updateHandlers s (phoneNumber u) of None \<Rightarrow> None | Some h \<Rightarrow> options_h h)"
  shows "snd (handleMessageUpdate s u a ta ck1) = []
    \<and> map update_of (snd (handleMessageUpdate (fst (handleMessageUpdate s u a ta ck1)) u b tb ck2))
        = [\<lparr>update_id = snd (generateUpdateId s (phoneNumber u) (at_id ck2)),
            payload = AlbumP (Some g)
              (if id_raw a \<le> id_raw b
               then [convertToMessage (at_convert ck2 0) a, convertToMessage (at_convert ck2 1) b]
               else [convertToMessage (at_convert ck2 0) b, convertToMessage (at_convert ck2 1) a])\<rparr>]"
proof -
  obtain C1 where C1: "set C1 \<subseteq> insert ((phoneNumber u, id_raw a, ta), at_handle ck1)
        (set (processedMessages s))"
    and h1: "handleMessageUpdate s u a ta ck1
        = handleMessageUpdate_try (s\<lparr>processedMessages := C1\<rparr>) u a ta ck1"
    using handleMessageUpdate_fresh [OF assms(4), of ck1] by blast
  let ?s1 = "s\<lparr>processedMessages := C1,
      timers := (nextTimer s, AlbumInitial g) # timers s, nextTimer := Suc (nextTimer s),
      pendingAlbums := (pendingAlbums s)(g \<mapsto> \<lparr>messages = [a], timer = nextTimer s\<rparr>)\<rparr>"
  have first: "handleMessageUpdate s u a ta ck1 = (?s1, [])"
    unfolding h1 using try_first_fragment [of a g "s\<lparr>processedMessages := C1\<rparr>" u ta ck1] assms(1,3)
    by simp
  have kb: "(phoneNumber u, id_raw b, tb) \<notin> fst ` set (processedMessages ?s1)"
  proof
    assume "(phoneNumber u, id_raw b, tb) \<in> fst ` set (processedMessages ?s1)"
    then obtain e where e: "e \<in> set C1" "fst e = (phoneNumber u, id_raw b, tb)" by auto
    then have "e = ((phoneNumber u, id_raw a, ta), at_handle ck1) \<or> e \<in> set (processedMessages s)"
      using C1 by auto
    then show False
    proof
      assume "e = ((phoneNumber u, id_raw a, ta), at_handle ck1)"
      then show False using e(2) assms(6) by simp
    next
      assume "e \<in> set (processedMessages s)"
      then show False using e(2) assms(5) by force
    qed
  qed
  obtain C2 where h2: "handleMessageUpdate ?s1 u b tb ck2
        = handleMessageUpdate_try (?s1\<lparr>processedMessages := C2\<rparr>) u b tb ck2"
    using handleMessageUpdate_fresh [OF kb, of ck2] by blast
  let ?s2 = "?s1\<lparr>processedMessages := C2\<rparr>"
  have p: "pendingAlbums ?s2 g = Some \<lparr>messages = [a], timer = nextTimer s\<rparr>" by simp
  have o: "shouldIncludeUpdate T_album
      (case updateHandlers ?s2 (phoneNumber u) of None \<Rightarrow> None | Some h \<Rightarrow> options_h h)"
    using assms(7) by simp
  have i: "snd (generateUpdateId ?s2 (phoneNumber u) (at_id ck2))
      = snd (generateUpdateId s (phoneNumber u) (at_id ck2))"
    by (simp add: generateUpdateId_def Let_def)
  have second: "map update_of (snd (handleMessageUpdate ?s1 u b tb ck2))
      = [\<lparr>update_id = snd (generateUpdateId s (phoneNumber u) (at_id ck2)),
            payload = AlbumP (Some g)
              (if id_raw a \<le> id_raw b
               then [convertToMessage (at_convert ck2 0) a, convertToMessage (at_convert ck2 1) b]
               else [convertToMessage (at_convert ck2 0) b, convertToMessage (at_convert ck2 1) a])\<rparr>]"
    unfolding h2 try_second_fragment [OF assms(2) p o] i by (rule refl)
  show ?thesis
    unfolding first using second by simp
qed

theorem two_fragments_make_one_album_witness:
  "groupedId (album_fragment 2 77) = Some 77 \<and> groupedId (album_fragment 1 77) = Some 77
   \<and> pendingAlbums initial_manager 77 = None
   \<and> shouldIncludeUpdate T_album
        (case updateHandlers initial_manager (phoneNumber polling_user) of
           None \<Rightarrow> None | Some h \<Rightarrow> options_h h)
   \<and> snd (handleMessageUpdate initial_manager polling_user (album_fragment 2 77) T_message
        (steady_clock 1700000000000)) = []
   \<and> map update_of
        (snd (handleMessageUpdate
           (fst (handleMessageUpdate initial_manager polling_user (album_fragment 2 77) T_message
              (steady_clock 1700000000000)))
           polling_user (album_fragment 1 77) T_message (steady_clock 1700000000100)))
       = [\<lparr>update_id = 1700000000101,
           payload = AlbumP (Some 77)
             [convertToMessage 1700000000100 (album_fragment 1 77),
              convertToMessage 1700000000100 (album_fragment 2 77)]\<rparr>]"
proof -
  have g: "groupedId (album_fragment 2 77) = Some 77" "groupedId (album_fragment 1 77) = Some 77"
    by (simp_all add: album_fragment_def)
  have p: "pendingAlbums initial_manager 77 = None" by (simp add: initial_manager_def)
  have k: "(phoneNumber polling_user, id_raw (album_fragment 2 77), T_message)
        \<notin> fst ` set (processedMessages initial_manager)"
      "(phoneNumber polling_user, id_raw (album_fragment 1 77), T_message)
        \<notin> fst ` set (processedMessages initial_manager)"
    by (simp_all add: initial_manager_def)
  have d: "(id_raw (album_fragment 2 77), T_message) \<noteq> (id_raw (album_fragment 1 77), T_message)"
    by (simp add: album_fragment_def)
  have o: "shouldIncludeUpdate T_album
        (case updateHandlers initial_manager (phoneNumber polling_user) of
           None \<Rightarrow> None | Some h \<Rightarrow> options_h h)"
    by (simp add: initial_manager_def shouldIncludeUpdate_def)
  have e: "snd (generateUpdateId initial_manager (phoneNumber polling_user)
        (at_id (steady_clock 1700000000100))) = 1700000000101"
    "at_convert (steady_clock 1700000000100) = (\<lambda>i. 1700000000100)"
    "\<not> id_raw (album_fragment 2 77) \<le> id_raw (album_fragment 1 77)"
    by (simp_all add: generateUpdateId_def initial_manager_def steady_clock_def Let_def
        album_fragment_def)
  note t = two_fragments_make_one_album [OF g p k d o,
      of "steady_clock 1700000000000" "steady_clock 1700000000100"]
  show ?thesis
    using g p o t by (simp only: e if_False)
qed

text \<open>
  The claim as stated fails when the account's waiter was registered with options that
  exclude album updates: the second fragment then takes the branch for single messages,
  and the one update handed over is a message update that holds the second fragment
  alone.
\<close>

theorem two_fragments_album_excluded_counterexample:
  "snd (handleMessageUpdate polling_without_albums polling_user (album_fragment 1 77) T_message
        (steady_clock 1700000000000)) = []
   \<and> map update_of
        (snd (handleMessageUpdate
           (fst (handleMessageUpdate polling_without_albums polling_user (album_fragment 1 77)
              T_message (steady_clock 1700000000000)))
           polling_user (album_fragment 2 77) T_message (steady_clock 1700000000100)))
       = [\<lparr>update_id = 1700000000101,
           payload = MessageP T_message (convertToMessage 1700000000100 (album_fragment 2 77))\<rparr>]"
  by (simp add: polling_without_albums_def getUpdates_def clearHandlers_def getBufferedUpdates_def
      newPromise_def setTimeout_def clearTimeout_def initial_manager_def polling_user_def
      handleMessageUpdate_def handleMessageUpdate_try_def handleMediaAlbum_def album_fragment_def
      steady_clock_def MAX_CACHE_SIZE_def Let_def sort_two shouldIncludeUpdate_def no_albums_def
      generateUpdateId_def processUpdate_def bufferUpdate_def settle_def)

text \<open>
  Claim C3. A lone fragment is stored and hands no update to the router, and the
  initial timer of its group is pending. When that timer fires, the callback returns
  the stored message, but the return value of a timer callback goes nowhere: no update
  is handed over, the group is deleted, and nothing is in the account's buffer. The
  fragment is lost.
\<close>

theorem lone_album_fragment_is_lost:
  "snd (handleMessageUpdate initial_manager polling_user (album_fragment 1 77) T_message
        (steady_clock 1700000000000)) = []
   \<and> pendingAlbums
        (fst (handleMessageUpdate initial_manager polling_user (album_fragment 1 77) T_message
           (steady_clock 1700000000000))) 77
       = Some \<lparr>messages = [album_fragment 1 77], timer = 0\<rparr>
   \<and> timers
        (fst (handleMessageUpdate initial_manager polling_user (album_fragment 1 77) T_message
           (steady_clock 1700000000000)))
       = [(0, AlbumInitial 77)]
   \<and> snd (runCallback
        (clearTimeout
           (fst (handleMessageUpdate initial_manager polling_user (album_fragment 1 77) T_message
              (steady_clock 1700000000000))) 0)
        (AlbumInitial 77))
       = [album_fragment 1 77]
   \<and> snd (fireTimer
        (fst (handleMessageUpdate initial_manager polling_user (album_fragment 1 77) T_message
           (steady_clock 1700000000000))) 0)
       = []
   \<and> pendingAlbums
        (fst (fireTimer
           (fst (handleMessageUpdate initial_manager polling_user (album_fragment 1 77) T_message
              (steady_clock 1700000000000))) 0)) 77
       = None
   \<and> updateBuffers
        (fst (fireTimer
           (fst (handleMessageUpdate initial_manager polling_user (album_fragment 1 77) T_message
              (steady_clock 1700000000000))) 0)) ''+15550100''
       = None
   \<and> timers
        (fst (fireTimer
           (fst (handleMessageUpdate initial_manager polling_user (album_fragment 1 77) T_message
              (steady_clock 1700000000000))) 0))
       = []"
  by (simp add: initial_manager_def polling_user_def handleMessageUpdate_def
      handleMessageUpdate_try_def handleMediaAlbum_def album_fragment_def steady_clock_def
      MAX_CACHE_SIZE_def Let_def setTimeout_def clearTimeout_def fireTimer_def)

end
